theory Spec2Isabelle
  imports Main "HOL-Library.AList"
begin

section \<open>Topic statistics of output.py\<close>

text \<open>
  The script reads a table of repositories, counts the topic labels of its \<open>topics\<close>
  column, ranks them by count and writes the ranking to three files. The functions below
  follow \<open>src/output.py\<close> statement by statement.

  Text is a \<open>string\<close> whose characters stand for code points below 256; Python's
  \<open>str\<close> methods are written out for that range.
\<close>

subsection \<open>Cells of the table\<close>

text \<open>
  A cell that \<open>pd.read_csv\<close> hands to the loop is a text, an integer (a column holding
  only numbers) or NaN (an empty field). NaN is a float object: it is truthy, it is not
  equal to itself, and Python's \<open>in\<close> on a list tests \<open>x is y or x == y\<close>, so two NaN
  cells are the same for \<open>in\<close> exactly when they are the same object. The number carried
  by \<open>NaN\<close> is that object's identity, which makes HOL's equality on cells the test
  that \<open>in\<close> performs. Floats other than NaN and booleans are not modelled.
\<close>

datatype cell = NaN nat | Str string | Num int

type_synonym row = "string \<rightharpoonup> cell"

type_synonym dataframe = "row list"

text \<open>\<open>row.get(key, default)\<close>\<close>

definition row_get :: "row \<Rightarrow> string \<Rightarrow> cell \<Rightarrow> cell" where
  "row_get r key dflt = (case r key of None \<Rightarrow> dflt | Some v \<Rightarrow> v)"

text \<open>\<open>pd.isna(x)\<close>\<close>

fun isna :: "cell \<Rightarrow> bool" where
  "isna (NaN i) = True"
| "isna (Str s) = False"
| "isna (Num n) = False"

text \<open>Truth value of a cell, as \<open>if repo_name and ...\<close> takes it.\<close>

fun truthy :: "cell \<Rightarrow> bool" where
  "truthy (NaN i) = True"
| "truthy (Str s) = (s \<noteq> [])"
| "truthy (Num n) = (n \<noteq> 0)"

subsection \<open>Methods of str\<close>

definition digit_char :: "nat \<Rightarrow> char" where
  "digit_char d = char_of (48 + d)"

fun digits :: "nat \<Rightarrow> string" where
  "digits n = (if n < 10 then [digit_char n] else digits (n div 10) @ [digit_char (n mod 10)])"

text \<open>\<open>str(x)\<close>\<close>

fun str_of :: "cell \<Rightarrow> string" where
  "str_of (NaN i) = ''nan''"
| "str_of (Str s) = s"
| "str_of (Num n) = (if n < 0 then CHR ''-'' # digits (nat (- n)) else digits (nat n))"

text \<open>
  \<open>s.split(sep)\<close> for a separator of one character. The scan keeps the piece in
  progress, reversed, in \<open>cur\<close>; the result is never the empty list.
\<close>

fun split_from :: "char \<Rightarrow> string \<Rightarrow> string \<Rightarrow> string list" where
  "split_from sep cur [] = [rev cur]"
| "split_from sep cur (c # cs) =
     (if c = sep then rev cur # split_from sep [] cs else split_from sep (c # cur) cs)"

definition str_split :: "char \<Rightarrow> string \<Rightarrow> string list" where
  "str_split sep s = split_from sep [] s"

text \<open>
  Whitespace as \<open>str.strip()\<close> sees it below 256: tab to carriage return, the four
  separators 28 to 31, space, NEL (133) and the no-break space (160).
\<close>

definition is_space :: "char \<Rightarrow> bool" where
  "is_space c =
     (let n = (of_char c :: nat)
      in (9 \<le> n \<and> n \<le> 13) \<or> (28 \<le> n \<and> n \<le> 32) \<or> n = 133 \<or> n = 160)"

definition str_strip :: "string \<Rightarrow> string" where
  "str_strip s = dropWhile is_space (rev (dropWhile is_space (rev s)))"

text \<open>
  \<open>str.lower()\<close> below 256: A to Z, and the accented capitals 192 to 222 without the
  multiplication sign 215, move up by 32.
\<close>

definition lower_char :: "char \<Rightarrow> char" where
  "lower_char c =
     (let n = (of_char c :: nat)
      in if (65 \<le> n \<and> n \<le> 90) \<or> (192 \<le> n \<and> n \<le> 222 \<and> n \<noteq> 215)
         then char_of (n + 32) else c)"

definition str_lower :: "string \<Rightarrow> string" where
  "str_lower s = map lower_char s"

subsection \<open>The topic map\<close>

text \<open>
  \<open>topic_map\<close> is a dict from the lowercase label to a dict with the keys \<open>topic\<close>,
  \<open>count\<close> and \<open>repos\<close>. A Python dict keeps its keys in insertion order and
  \<open>generate_wordcloud_data\<close> reads that order, so the map is an association list:
  assigning to a new key appends, assigning to a key already there replaces in place
  (\<open>AList.update\<close>). The list \<open>repos\<close> holds the \<open>repo_name\<close> cells as they come.
\<close>

record topic_stat =
  topic :: string
  count :: int
  repos :: "cell list"

type_synonym topic_map = "(string \<times> topic_stat) list"

datatype error = KeyError string | TypeError

text \<open>\<open>topic_map[key]\<close> raises KeyError on a key that is not there.\<close>

definition getitem :: "topic_map \<Rightarrow> string \<Rightarrow> error + topic_stat" where
  "getitem m key = (case map_of m key of None \<Rightarrow> Inl (KeyError key) | Some st \<Rightarrow> Inr st)"

text \<open>Sequencing of statements that may raise: the first exception ends the run.\<close>

definition bind_e :: "error + 'a \<Rightarrow> ('a \<Rightarrow> error + 'b) \<Rightarrow> error + 'b" where
  "bind_e r f = (case r of Inl e \<Rightarrow> Inl e | Inr v \<Rightarrow> f v)"

subsection \<open>count_topics_from_csv\<close>

text \<open>
  Line 63: \<open>[t.strip() for t in str(topics_str).split(',') if t.strip()]\<close>.
\<close>

definition parse_topics :: "cell \<Rightarrow> string list" where
  "parse_topics topics_str =
     filter (\<lambda>t. t \<noteq> []) (map str_strip (str_split CHR '','' (str_of topics_str)))"

text \<open>
  Lines 66 to 75, the body of \<open>for topic in topics\<close>. Each \<open>topic_map[topic_lower]\<close>
  is a lookup that can raise; the two in-place changes of the inner dict write the
  changed entry back under its key.
\<close>

definition topic_body :: "cell \<Rightarrow> string \<Rightarrow> topic_map \<Rightarrow> error + topic_map" where
  "topic_body repo_name tp tm =
     (let topic_lower = str_lower tp;
          tm1 = (if topic_lower \<notin> fst ` set tm
                 then AList.update topic_lower \<lparr>topic = tp, count = 0, repos = []\<rparr> tm
                 else tm)
      in bind_e (getitem tm1 topic_lower) (\<lambda>st.
           let tm2 = AList.update topic_lower (st\<lparr>count := count st + 1\<rparr>) tm1
           in if truthy repo_name
              then bind_e (getitem tm2 topic_lower) (\<lambda>st2.
                     if repo_name \<notin> set (repos st2)
                     then bind_e (getitem tm2 topic_lower) (\<lambda>st3.
                            Inr (AList.update topic_lower
                                   (st3\<lparr>repos := repos st3 @ [repo_name]\<rparr>) tm2))
                     else Inr tm2)
              else Inr tm2))"

fun topic_loop :: "cell \<Rightarrow> string list \<Rightarrow> topic_map \<Rightarrow> error + topic_map" where
  "topic_loop repo_name [] tm = Inr tm"
| "topic_loop repo_name (tp # tps) tm =
     bind_e (topic_body repo_name tp tm) (topic_loop repo_name tps)"

text \<open>Lines 56 to 75, the body of \<open>for idx, row in df.iterrows()\<close>.\<close>

definition row_body :: "row \<Rightarrow> topic_map \<Rightarrow> error + topic_map" where
  "row_body r tm =
     (let repo_name = row_get r ''repo_name'' (Str '''');
          topics_str = row_get r ''topics'' (Str '''')
      in if isna topics_str \<or> topics_str = Str ''''
         then Inr tm
         else topic_loop repo_name (parse_topics topics_str) tm)"

fun row_loop :: "dataframe \<Rightarrow> topic_map \<Rightarrow> error + topic_map" where
  "row_loop [] tm = Inr tm"
| "row_loop (r # rs) tm = bind_e (row_body r tm) (row_loop rs)"

text \<open>
  \<open>count_topics_from_csv\<close> from line 47 on, as a function of the frame that
  \<open>pd.read_csv(csv_path)\<close> returned; the rows come in the order of \<open>iterrows\<close>.
\<close>

definition count_topics_from_csv :: "dataframe \<Rightarrow> error + topic_map" where
  "count_topics_from_csv df = row_loop df []"

text \<open>A row with the two columns the loop reads.\<close>

definition mk_row :: "cell \<Rightarrow> cell \<Rightarrow> row" where
  "mk_row repo_name topics_str = [''repo_name'' \<mapsto> repo_name, ''topics'' \<mapsto> topics_str]"

subsection \<open>generate_wordcloud_data\<close>

text \<open>
  \<open>list.sort(key=..., reverse=True)\<close> is stable. CPython reverses the list, sorts it
  ascending with its stable sort, and reverses the result; \<open>sort_key\<close> is a stable
  ascending sort.
\<close>

definition sort_reverse :: "('a \<Rightarrow> int) \<Rightarrow> 'a list \<Rightarrow> 'a list" where
  "sort_reverse key xs = rev (sort_key key (rev xs))"

text \<open>The slice \<open>xs[:n]\<close>: a negative \<open>n\<close> counts from the end.\<close>

definition slice_to :: "'a list \<Rightarrow> int \<Rightarrow> 'a list" where
  "slice_to xs n = (if n < 0 then take (nat (int (length xs) + n)) xs else take (nat n) xs)"

text \<open>An entry of the ranking: the dict with the keys name, value, count and repos.\<close>

record ranked_entry =
  e_name :: string
  e_value :: int
  e_count :: int
  e_repos :: "cell list"

definition entry_of :: "topic_stat \<Rightarrow> ranked_entry" where
  "entry_of st = \<lparr>e_name = topic st, e_value = count st, e_count = count st, e_repos = repos st\<rparr>"

definition generate_wordcloud_data :: "topic_map \<Rightarrow> int \<Rightarrow> ranked_entry list" where
  "generate_wordcloud_data tm top_n =
     (let stats_list = sort_reverse count (map snd tm);
          top_n_list = slice_to stats_list top_n
      in map entry_of top_n_list)"

subsection \<open>The three writers and main\<close>

text \<open>\<open>sep.join(xs)\<close> raises TypeError unless every item is a str.\<close>

fun str_join :: "string \<Rightarrow> cell list \<Rightarrow> error + string" where
  "str_join sep [] = Inr []"
| "str_join sep (Str s # xs) =
     (if xs = [] then Inr s else bind_e (str_join sep xs) (\<lambda>rest. Inr (s @ sep @ rest)))"
| "str_join sep (x # xs) = Inl TypeError"

text \<open>A list comprehension whose element expression may raise.\<close>

fun map_e :: "('a \<Rightarrow> error + 'b) \<Rightarrow> 'a list \<Rightarrow> error + 'b list" where
  "map_e f [] = Inr []"
| "map_e f (x # xs) = bind_e (f x) (\<lambda>y. bind_e (map_e f xs) (\<lambda>ys. Inr (y # ys)))"

text \<open>
  The JSON document without its fixed description text, a row of the CSV file below its
  header, and a row of either Excel sheet (rank, label, count, number of repositories,
  the first ten repositories joined).

  Of the exceptions the writers can raise, the model has the one in the source's own
  expressions, the TypeError of \<open>join\<close>. The library calls behind them (\<open>json.dump\<close>,
  \<open>csv.writer\<close>, \<open>pd.ExcelWriter\<close>) are taken to succeed, which they do not always:
  nothing below says that a run writes all three files.
\<close>

record json_doc =
  generatedAt :: string
  json_data :: "ranked_entry list"
  totalTopics :: int
  top15Topics :: int

record csv_row =
  c_name :: string
  c_value :: int
  c_count :: int
  c_repoCount :: int

record sheet_row =
  x_rank :: int
  x_word :: string
  x_count :: int
  x_repo_count :: int
  x_repo_list :: string

text \<open>
  What the script prints: one constructor for each message of the source, where the
  three lines about the missing input and the five closing lines are one message each.
\<close>

datatype message =
    MsgStart
  | MsgMissingInput
  | MsgReading
  | MsgRowCount int
  | MsgTopicCount int
  | MsgTopHeader
  | MsgTopLine int string int int
  | MsgJsonSaved
  | MsgCsvSaved
  | MsgExcelSaved
  | MsgDone

text \<open>
  The files and the terminal the script touches. \<open>input_csv\<close> is the file at
  \<open>INPUT_CSV\<close>: \<open>None\<close> when it does not exist, otherwise the frame that
  \<open>pd.read_csv\<close> makes of it. \<open>clock\<close> is the text of
  \<open>pd.Timestamp.now().isoformat()\<close>. The three output files are \<open>None\<close> until written.
\<close>

record world =
  input_csv :: "dataframe option"
  clock :: string
  json_file :: "json_doc option"
  csv_file :: "csv_row list option"
  excel_file :: "(sheet_row list \<times> sheet_row list) option"
  console :: "message list"

definition print :: "message \<Rightarrow> world \<Rightarrow> world" where
  "print msg w = w\<lparr>console := console w @ [msg]\<rparr>"

definition save_json :: "ranked_entry list \<Rightarrow> topic_map \<Rightarrow> world \<Rightarrow> world" where
  "save_json dat tm w =
     (let output = \<lparr>generatedAt = clock w, json_data = dat,
                     totalTopics = int (length tm), top15Topics = int (length dat)\<rparr>
      in print MsgJsonSaved (w\<lparr>json_file := Some output\<rparr>))"

definition save_csv :: "ranked_entry list \<Rightarrow> world \<Rightarrow> world" where
  "save_csv dat w =
     (let rows = map (\<lambda>item. \<lparr>c_name = e_name item, c_value = e_value item,
                              c_count = e_count item,
                              c_repoCount = int (length (e_repos item))\<rparr>) dat
      in print MsgCsvSaved (w\<lparr>csv_file := Some rows\<rparr>))"

definition sheet_row_of :: "nat \<Rightarrow> string \<Rightarrow> int \<Rightarrow> cell list \<Rightarrow> error + sheet_row" where
  "sheet_row_of i word cnt rs =
     bind_e (str_join '', '' (slice_to rs 10)) (\<lambda>joined.
       Inr \<lparr>x_rank = int i + 1, x_word = word, x_count = cnt,
            x_repo_count = int (length rs), x_repo_list = joined\<rparr>)"

definition save_excel :: "ranked_entry list \<Rightarrow> topic_map \<Rightarrow> world \<Rightarrow> error + world" where
  "save_excel dat tm w =
     bind_e (map_e (\<lambda>(i, item). sheet_row_of i (e_name item) (e_count item) (e_repos item))
               (enumerate 0 dat)) (\<lambda>df1.
       let all_stats = sort_reverse count (map snd tm)
       in bind_e (map_e (\<lambda>(i, st). sheet_row_of i (topic st) (count st) (repos st))
                    (enumerate 0 all_stats)) (\<lambda>df2.
            Inr (print MsgExcelSaved (w\<lparr>excel_file := Some (df1, df2)\<rparr>))))"

text \<open>
  \<open>main\<close> returns the world it leaves behind and the exception that ended it, if one
  did. The two messages of \<open>count_topics_from_csv\<close> are printed where it is called.
\<close>

definition main :: "world \<Rightarrow> world \<times> error option" where
  "main w0 =
     (let w1 = print MsgStart w0
      in case input_csv w1 of
           None \<Rightarrow> (print MsgMissingInput w1, None)
         | Some df \<Rightarrow>
             (let w2 = print (MsgRowCount (int (length df))) (print MsgReading w1)
              in case count_topics_from_csv df of
                   Inl e \<Rightarrow> (w2, Some e)
                 | Inr tm \<Rightarrow>
                     (let w3 = print (MsgTopicCount (int (length tm))) w2;
                          wordcloud_data = generate_wordcloud_data tm 15;
                          w4 = fold (\<lambda>(i, item). print (MsgTopLine (int i) (e_name item)
                                       (e_count item) (int (length (e_repos item)))))
                                 (enumerate 1 wordcloud_data) (print MsgTopHeader w3);
                          w5 = save_json wordcloud_data tm w4;
                          w6 = save_csv wordcloud_data w5
                      in case save_excel wordcloud_data tm w6 of
                           Inl e \<Rightarrow> (w6, Some e)
                         | Inr w7 \<Rightarrow> (print MsgDone w7, None))))"

subsection \<open>What the loops compute\<close>

text \<open>
  The definitions of this part are not in the source: they describe the result of the
  loops in closed form, and the lemmas below prove that the loops compute it.

  \<open>bump\<close> is the effect of lines 73 to 75 on one entry, \<open>add_label\<close> the effect of
  one round of the inner loop on the map.
\<close>

definition bump :: "cell \<Rightarrow> topic_stat \<Rightarrow> topic_stat" where
  "bump repo_name st =
     (if truthy repo_name \<and> repo_name \<notin> set (repos st)
      then st\<lparr>count := count st + 1, repos := repos st @ [repo_name]\<rparr>
      else st\<lparr>count := count st + 1\<rparr>)"

definition add_label :: "cell \<Rightarrow> string \<Rightarrow> topic_map \<Rightarrow> topic_map" where
  "add_label repo_name tp tm =
     AList.update (str_lower tp)
       (bump repo_name (case map_of tm (str_lower tp) of
                          None \<Rightarrow> \<lparr>topic = tp, count = 0, repos = []\<rparr>
                        | Some st \<Rightarrow> st)) tm"

text \<open>
  The labels a row contributes: the list \<open>topics\<close> of line 63, or none when line 59
  skips the row. \<open>occurrences\<close> lists every label of the frame in scan order, each with
  the \<open>repo_name\<close> cell of its row; \<open>labels\<close> forgets the cells.
\<close>

definition row_repo :: "row \<Rightarrow> cell" where
  "row_repo r = row_get r ''repo_name'' (Str '''')"

definition row_topics :: "row \<Rightarrow> cell" where
  "row_topics r = row_get r ''topics'' (Str '''')"

definition skipped :: "row \<Rightarrow> bool" where
  "skipped r = (isna (row_topics r) \<or> row_topics r = Str '''')"

definition row_labels :: "row \<Rightarrow> string list" where
  "row_labels r = (if skipped r then [] else parse_topics (row_topics r))"

definition occurrences :: "dataframe \<Rightarrow> (cell \<times> string) list" where
  "occurrences df = concat (map (\<lambda>r. map (Pair (row_repo r)) (row_labels r)) df)"

definition labels :: "dataframe \<Rightarrow> string list" where
  "labels df = concat (map row_labels df)"

text \<open>The elements of a list in the order of their first occurrence.\<close>

definition firsts :: "'a list \<Rightarrow> 'a list" where
  "firsts xs = rev (remdups (rev xs))"

text \<open>The occurrences of the labels that fold to the key \<open>k\<close>, and the entry they make.\<close>

definition hits :: "(cell \<times> string) list \<Rightarrow> string \<Rightarrow> (cell \<times> string) list" where
  "hits os k = filter (\<lambda>oc. str_lower (snd oc) = k) os"

definition stat_of :: "(cell \<times> string) list \<Rightarrow> string \<Rightarrow> topic_stat" where
  "stat_of os k =
     \<lparr>topic = snd (hd (hits os k)),
      count = int (length (hits os k)),
      repos = firsts (filter truthy (map fst (hits os k)))\<rparr>"

definition closed_form :: "(cell \<times> string) list \<Rightarrow> topic_map" where
  "closed_form os = map (\<lambda>k. (k, stat_of os k)) (firsts (map (\<lambda>oc. str_lower (snd oc)) os))"

subsection \<open>Notions of the specification\<close>

text \<open>
  The number of records whose trimmed, comma-split label list contains the key \<open>k\<close>
  under case-insensitive comparison, in the words of the specification.
\<close>

definition spec_record_count :: "dataframe \<Rightarrow> string \<Rightarrow> nat" where
  "spec_record_count df k = length (filter (\<lambda>r. k \<in> str_lower ` set (row_labels r)) df)"

text \<open>
  The record of a row, as the specification has it: the repository identifier and the
  topics value, each as \<open>row.get\<close> reads it in lines 56 and 57.
\<close>

definition record_of :: "row \<Rightarrow> cell \<times> cell" where
  "record_of r = (row_get r ''repo_name'' (Str ''''), row_get r ''topics'' (Str ''''))"

text \<open>A world before the first run: no output file yet, nothing printed.\<close>

definition fresh_world :: "dataframe option \<Rightarrow> string \<Rightarrow> world" where
  "fresh_world inp now =
     \<lparr>input_csv = inp, clock = now, json_file = None, csv_file = None,
      excel_file = None, console = []\<rparr>"

section \<open>Properties\<close>

subsection \<open>The loops raise nothing and compute the closed form\<close>

lemma update_absent: "k \<notin> fst ` set al \<Longrightarrow> AList.update k v al = al @ [(k, v)]"
  by (induction al) auto

lemma getitem_update: "getitem (AList.update k v al) k = Inr v"
  by (simp add: getitem_def update_conv')

lemma map_of_absent: "k \<notin> fst ` set al \<Longrightarrow> map_of al k = None"
  by (simp add: map_of_eq_None_iff)

lemma topic_body_eq: "topic_body rn tp tm = Inr (add_label rn tp tm)"
proof (cases "str_lower tp \<in> fst ` set tm")
  case True
  then obtain st where st: "map_of tm (str_lower tp) = Some st"
    by (metis domD dom_map_of_conv_image_fst)
  then have g: "getitem tm (str_lower tp) = Inr st"
    by (simp add: getitem_def)
  show ?thesis using True st g
    by (simp add: topic_body_def add_label_def bump_def bind_e_def Let_def getitem_update)
next
  case False
  then have "map_of tm (str_lower tp) = None"
    by (rule map_of_absent)
  then show ?thesis using False
    by (simp add: topic_body_def add_label_def bump_def bind_e_def Let_def getitem_update)
qed

lemma topic_loop_eq: "topic_loop rn tps tm = Inr (fold (add_label rn) tps tm)"
  by (induction tps arbitrary: tm) (simp_all add: topic_body_eq bind_e_def)

lemma row_body_eq:
  "row_body r tm = Inr (fold (\<lambda>(rn, tp). add_label rn tp) (map (Pair (row_repo r)) (row_labels r)) tm)"
  by (simp add: row_body_def row_labels_def skipped_def row_repo_def row_topics_def
      topic_loop_eq fold_map comp_def Let_def)

lemma row_loop_eq:
  "row_loop df tm = Inr (fold (\<lambda>(rn, tp). add_label rn tp) (occurrences df) tm)"
  by (induction df arbitrary: tm) (simp_all add: occurrences_def row_body_eq bind_e_def)

lemma count_topics_eq:
  "count_topics_from_csv df = Inr (fold (\<lambda>(rn, tp). add_label rn tp) (occurrences df) [])"
  by (simp add: count_topics_from_csv_def row_loop_eq)

lemma firsts_snoc: "firsts (xs @ [x]) = (if x \<in> set xs then firsts xs else firsts xs @ [x])"
  by (simp add: firsts_def)

lemma set_firsts: "set (firsts xs) = set xs"
  by (simp add: firsts_def)

lemma distinct_firsts: "distinct (firsts xs)"
  by (simp add: firsts_def)

lemma map_of_graph: "map_of (map (\<lambda>k. (k, f k)) ks) k = (if k \<in> set ks then Some (f k) else None)"
  by (induction ks) auto

lemma update_graph:
  "k \<in> set ks \<Longrightarrow> distinct ks \<Longrightarrow>
   AList.update k v (map (\<lambda>x. (x, f x)) ks) = map (\<lambda>x. (x, if x = k then v else f x)) ks"
  by (induction ks) (auto simp: update_absent image_iff)

lemma hits_snoc:
  "hits (os @ [oc]) k = (if str_lower (snd oc) = k then hits os k @ [oc] else hits os k)"
  by (simp add: hits_def)

lemma hits_Nil_iff: "hits os k = [] \<longleftrightarrow> k \<notin> set (map (\<lambda>oc. str_lower (snd oc)) os)"
  by (auto simp: hits_def filter_empty_conv)

lemma stat_of_other:
  "str_lower tp \<noteq> k \<Longrightarrow> stat_of (os @ [(rn, tp)]) k = stat_of os k"
  by (simp add: stat_of_def hits_snoc)

lemma stat_of_new:
  "hits os (str_lower tp) = [] \<Longrightarrow>
   stat_of (os @ [(rn, tp)]) (str_lower tp) = bump rn \<lparr>topic = tp, count = 0, repos = []\<rparr>"
  by (simp add: stat_of_def hits_snoc bump_def firsts_def)

lemma stat_of_old:
  "hits os (str_lower tp) \<noteq> [] \<Longrightarrow>
   stat_of (os @ [(rn, tp)]) (str_lower tp) = bump rn (stat_of os (str_lower tp))"
  by (simp add: stat_of_def hits_snoc bump_def firsts_snoc set_firsts)

lemma add_label_closed_form:
  "add_label rn tp (closed_form os) = closed_form (os @ [(rn, tp)])"
proof (cases "str_lower tp \<in> set (map (\<lambda>oc. str_lower (snd oc)) os)")
  case True
  then have h: "hits os (str_lower tp) \<noteq> []"
    by (simp add: hits_Nil_iff)
  have "add_label rn tp (closed_form os) =
        map (\<lambda>x. (x, if x = str_lower tp then bump rn (stat_of os (str_lower tp)) else stat_of os x))
          (firsts (map (\<lambda>oc. str_lower (snd oc)) os))"
    using True
    by (simp add: add_label_def closed_form_def map_of_graph set_firsts update_graph distinct_firsts)
  also have "\<dots> = closed_form (os @ [(rn, tp)])"
    using True h
    by (auto simp: closed_form_def firsts_snoc stat_of_old stat_of_other)
  finally show ?thesis .
next
  case False
  then have h: "hits os (str_lower tp) = []"
    by (simp add: hits_Nil_iff)
  have "add_label rn tp (closed_form os) =
        closed_form os @ [(str_lower tp, bump rn \<lparr>topic = tp, count = 0, repos = []\<rparr>)]"
    using False
    by (simp add: add_label_def closed_form_def map_of_graph set_firsts update_absent image_iff comp_def)
  also have "\<dots> = closed_form (os @ [(rn, tp)])"
  proof -
    have "map (\<lambda>k. (k, stat_of (os @ [(rn, tp)]) k)) (firsts (map (\<lambda>oc. str_lower (snd oc)) os)) =
          map (\<lambda>k. (k, stat_of os k)) (firsts (map (\<lambda>oc. str_lower (snd oc)) os))"
    proof (rule map_cong [OF refl])
      fix x assume "x \<in> set (firsts (map (\<lambda>oc. str_lower (snd oc)) os))"
      then have "str_lower tp \<noteq> x" using False by (auto simp: set_firsts)
      then show "(x, stat_of (os @ [(rn, tp)]) x) = (x, stat_of os x)"
        by (simp add: stat_of_other)
    qed
    then show ?thesis using False h
      by (simp add: closed_form_def firsts_snoc stat_of_new)
  qed
  finally show ?thesis .
qed

lemma fold_add_label: "fold (\<lambda>(rn, tp). add_label rn tp) os [] = closed_form os"
proof (induction os rule: rev_induct)
  case Nil
  show ?case by (simp add: closed_form_def firsts_def)
next
  case (snoc oc os)
  then show ?case by (cases oc) (simp add: add_label_closed_form)
qed

lemma count_topics_closed_form: "count_topics_from_csv df = Inr (closed_form (occurrences df))"
  by (simp add: count_topics_eq fold_add_label)

lemma closed_form_entry:
  "(k, st) \<in> set (closed_form os) \<longleftrightarrow> hits os k \<noteq> [] \<and> st = stat_of os k"
  by (auto simp: closed_form_def set_firsts hits_Nil_iff)

lemma closed_form_keys: "map fst (closed_form os) = firsts (map (\<lambda>oc. str_lower (snd oc)) os)"
  by (simp add: closed_form_def comp_def)

lemma occurrences_labels: "map snd (occurrences df) = labels df"
  by (simp add: occurrences_def labels_def map_concat comp_def)

lemma hits_labels:
  "map snd (hits os k) = filter (\<lambda>tp. str_lower tp = k) (map snd os)"
  by (simp add: hits_def filter_map comp_def)

lemma length_firsts_le: "length (firsts xs) \<le> length xs"
  by (simp add: firsts_def) (metis length_remdups_leq length_rev)

subsection \<open>Invariants of the entries\<close>

text \<open>
  C9. For every frame, aggregation returns a map, and every entry of it has at most as
  many repositories as its count, and a count of at least 1.
\<close>
theorem repos_bounded_by_count:
  "\<exists>tm. count_topics_from_csv df = Inr tm \<and>
        (\<forall>(k, st) \<in> set tm. int (length (repos st)) \<le> count st \<and> 1 \<le> count st)"
proof -
  have "int (length (repos st)) \<le> count st \<and> 1 \<le> count st"
    if "(k, st) \<in> set (closed_form os)" for k st os
  proof -
    from that have ne: "hits os k \<noteq> []" and st: "st = stat_of os k"
      by (simp_all add: closed_form_entry)
    have "length (firsts (filter truthy (map fst (hits os k)))) \<le> length (hits os k)"
      by (rule order_trans [OF length_firsts_le]) (simp add: order_trans [OF length_filter_le])
    moreover have "1 \<le> length (hits os k)" using ne by (cases "hits os k") simp_all
    ultimately show ?thesis by (simp add: st stat_of_def)
  qed
  then show ?thesis
    by (auto simp: count_topics_closed_form)
qed

theorem repos_bounded_by_count_witness:
  "count_topics_from_csv [mk_row (Str ''repoA'') (Str ''Rust, CLI''), mk_row (Str ''repoB'') (Str ''rust'')]
     = Inr [(''rust'', \<lparr>topic = ''Rust'', count = 2, repos = [Str ''repoA'', Str ''repoB'']\<rparr>),
            (''cli'', \<lparr>topic = ''CLI'', count = 1, repos = [Str ''repoA'']\<rparr>)]
   \<and> int (length [Str ''repoA'', Str ''repoB'']) \<le> (2::int) \<and> (1::int) \<le> 2"
proof -
  let ?df = "[mk_row (Str ''repoA'') (Str ''Rust, CLI''), mk_row (Str ''repoB'') (Str ''rust'')]"
  let ?tm = "[(''rust'', \<lparr>topic = ''Rust'', count = 2, repos = [Str ''repoA'', Str ''repoB'']\<rparr>),
            (''cli'', \<lparr>topic = ''CLI'', count = 1, repos = [Str ''repoA'']\<rparr>)]"
  have e: "count_topics_from_csv ?df = Inr ?tm"
    by code_simp
  from repos_bounded_by_count [of ?df] obtain tm where
    "count_topics_from_csv ?df = Inr tm"
    and p: "\<forall>(k, st) \<in> set tm. int (length (repos st)) \<le> count st \<and> 1 \<le> count st"
    by blast
  with e have "tm = ?tm" by simp
  with p have "int (length (repos \<lparr>topic = ''Rust'', count = 2, repos = [Str ''repoA'', Str ''repoB'']\<rparr>))
      \<le> count \<lparr>topic = ''Rust'', count = 2, repos = [Str ''repoA'', Str ''repoB'']\<rparr>
      \<and> 1 \<le> count \<lparr>topic = ''Rust'', count = 2, repos = [Str ''repoA'', Str ''repoB'']\<rparr>"
    by simp
  with e show ?thesis by simp
qed

lemma strip_hd: "str_strip s \<noteq> [] \<Longrightarrow> \<not> is_space (hd (str_strip s))"
  unfolding str_strip_def by (rule hd_dropWhile)

lemma last_dropWhile_same: "dropWhile P xs \<noteq> [] \<Longrightarrow> last (dropWhile P xs) = last xs"
  by (induction xs) (auto split: if_splits)

lemma strip_last: "str_strip s \<noteq> [] \<Longrightarrow> \<not> is_space (last (str_strip s))"
proof -
  assume ne: "str_strip s \<noteq> []"
  let ?u = "dropWhile is_space (rev s)"
  have u: "?u \<noteq> []"
  proof
    assume "?u = []"
    then have "str_strip s = []" by (simp add: str_strip_def del: dropWhile_eq_Nil_conv)
    with ne show False by simp
  qed
  from ne have "last (str_strip s) = last (rev ?u)"
    unfolding str_strip_def by (rule last_dropWhile_same)
  also have "\<dots> = hd ?u" by (simp add: last_rev)
  finally show ?thesis using hd_dropWhile [OF u] by simp
qed

lemma parse_topics_label:
  "tp \<in> set (parse_topics c) \<Longrightarrow> tp \<noteq> [] \<and> (\<exists>s. tp = str_strip s)"
  by (auto simp: parse_topics_def)

lemma labels_label:
  "tp \<in> set (labels df) \<Longrightarrow> tp \<noteq> [] \<and> (\<exists>s. tp = str_strip s)"
  by (auto simp: labels_def row_labels_def dest: parse_topics_label split: if_splits)

lemma hits_hd:
  "hits os k \<noteq> [] \<Longrightarrow> hd (hits os k) \<in> set os \<and> str_lower (snd (hd (hits os k))) = k"
proof -
  assume "hits os k \<noteq> []"
  then have "hd (hits os k) \<in> set (hits os k)" by (rule hd_in_set)
  then show ?thesis by (simp add: hits_def)
qed

text \<open>
  C10. For every frame, aggregation returns a map in which every key is the lowercase
  form of its entry's display label, and the display label is not empty and neither
  starts nor ends with whitespace.
\<close>
theorem key_is_lowercase_of_trimmed_label:
  "\<exists>tm. count_topics_from_csv df = Inr tm \<and>
        (\<forall>(k, st) \<in> set tm. k = str_lower (topic st) \<and> topic st \<noteq> [] \<and>
             \<not> is_space (hd (topic st)) \<and> \<not> is_space (last (topic st)))"
proof -
  have "k = str_lower (topic st) \<and> topic st \<noteq> [] \<and>
        \<not> is_space (hd (topic st)) \<and> \<not> is_space (last (topic st))"
    if "(k, st) \<in> set (closed_form (occurrences df))" for k st
  proof -
    from that have ne: "hits (occurrences df) k \<noteq> []" and st: "st = stat_of (occurrences df) k"
      by (simp_all add: closed_form_entry)
    have tp: "topic st = snd (hd (hits (occurrences df) k))"
      by (simp add: st stat_of_def)
    from hits_hd [OF ne] have mem: "hd (hits (occurrences df) k) \<in> set (occurrences df)"
      and key: "str_lower (topic st) = k"
      by (simp_all add: tp)
    from mem have "snd (hd (hits (occurrences df) k)) \<in> snd ` set (occurrences df)"
      by (rule imageI)
    then have "topic st \<in> set (map snd (occurrences df))"
      by (simp add: tp)
    then have "topic st \<in> set (labels df)"
      by (simp only: occurrences_labels)
    then obtain s where "topic st \<noteq> []" "topic st = str_strip s"
      using labels_label by blast
    then show ?thesis using key strip_hd [of s] strip_last [of s] by simp
  qed
  then show ?thesis
    by (auto simp: count_topics_closed_form)
qed

theorem key_is_lowercase_of_trimmed_label_witness:
  "count_topics_from_csv [mk_row (Str ''a/b'') (Str '' Machine Learning ,  GO'')]
     = Inr [(''machine learning'', \<lparr>topic = ''Machine Learning'', count = 1, repos = [Str ''a/b'']\<rparr>),
            (''go'', \<lparr>topic = ''GO'', count = 1, repos = [Str ''a/b'']\<rparr>)]
   \<and> ''go'' = str_lower ''GO'' \<and> ''GO'' \<noteq> [] \<and> \<not> is_space (hd ''GO'') \<and> \<not> is_space (last ''GO'')"
proof -
  let ?df = "[mk_row (Str ''a/b'') (Str '' Machine Learning ,  GO'')]"
  let ?st = "\<lparr>topic = ''GO'', count = 1, repos = [Str ''a/b'']\<rparr>"
  let ?tm = "[(''machine learning'', \<lparr>topic = ''Machine Learning'', count = 1, repos = [Str ''a/b'']\<rparr>),
            (''go'', ?st)]"
  have e: "count_topics_from_csv ?df = Inr ?tm"
    by code_simp
  from key_is_lowercase_of_trimmed_label [of ?df] obtain tm where
    "count_topics_from_csv ?df = Inr tm"
    and p: "\<forall>(k, st) \<in> set tm. k = str_lower (topic st) \<and> topic st \<noteq> [] \<and>
             \<not> is_space (hd (topic st)) \<and> \<not> is_space (last (topic st))"
    by blast
  with e have "tm = ?tm" by simp
  with p have "''go'' = str_lower (topic ?st) \<and> topic ?st \<noteq> [] \<and>
       \<not> is_space (hd (topic ?st)) \<and> \<not> is_space (last (topic ?st))"
    by simp
  with e show ?thesis by simp
qed

lemma count_is_label_occurrences:
  "hits os k \<noteq> [] \<Longrightarrow>
   count (stat_of os k) = int (length (filter (\<lambda>tp. str_lower tp = k) (map snd os)))"
proof -
  have "length (hits os k) = length (map snd (hits os k))" by simp
  also have "\<dots> = length (filter (\<lambda>tp. str_lower tp = k) (map snd os))"
    by (simp only: hits_labels)
  finally show ?thesis by (simp add: stat_of_def)
qed

lemma length_filter_distinct_key:
  "distinct (map f xs) \<Longrightarrow> length (filter (\<lambda>x. f x = k) xs) = (if k \<in> f ` set xs then 1 else 0)"
  by (induction xs) (auto simp: filter_empty_conv image_iff)

lemma occurrences_once_per_record:
  "(\<forall>r \<in> set df. distinct (map str_lower (row_labels r))) \<Longrightarrow>
   length (filter (\<lambda>tp. str_lower tp = k) (labels df)) = spec_record_count df k"
proof (induction df)
  case Nil
  show ?case by (simp add: labels_def spec_record_count_def)
next
  case (Cons r df)
  then have d: "distinct (map str_lower (row_labels r))"
    and ih: "length (filter (\<lambda>tp. str_lower tp = k) (labels df)) = spec_record_count df k"
    by simp_all
  have "length (filter (\<lambda>tp. str_lower tp = k) (labels (r # df))) =
        length (filter (\<lambda>tp. str_lower tp = k) (row_labels r)) +
        length (filter (\<lambda>tp. str_lower tp = k) (labels df))"
    by (simp add: labels_def)
  also have "\<dots> = (if k \<in> str_lower ` set (row_labels r) then 1 else 0) + spec_record_count df k"
    by (simp only: length_filter_distinct_key [OF d] ih)
  also have "\<dots> = spec_record_count (r # df) k"
    by (simp add: spec_record_count_def)
  finally show ?case .
qed

subsection \<open>What the count counts\<close>

text \<open>
  C1, as stated, fails: the record with the topics \<open>"  Go ,Go,go "\<close> is one record
  containing the label, and the count of the entry is 3, since line 73 runs once for
  every label of the list.
\<close>

theorem count_is_not_record_count:
  "count_topics_from_csv [mk_row (Str ''a/b'') (Str ''  Go ,Go,go '')]
     = Inr [(''go'', \<lparr>topic = ''Go'', count = 3, repos = [Str ''a/b'']\<rparr>)]
   \<and> int (spec_record_count [mk_row (Str ''a/b'') (Str ''  Go ,Go,go '')] ''go'') \<noteq> 3"
  by code_simp

text \<open>
  C1, amended. For every frame, aggregation returns a map, and the count of every entry
  is the number of occurrences, in the trimmed and comma-split label lists of all records,
  of labels whose lowercase form is the entry's key. Where no record lists a label twice
  (up to case), that is the number of records containing the label.
\<close>
theorem count_is_occurrence_count:
  "\<exists>tm. count_topics_from_csv df = Inr tm \<and>
        (\<forall>(k, st) \<in> set tm.
            count st = int (length (filter (\<lambda>tp. str_lower tp = k) (labels df))) \<and>
            ((\<forall>r \<in> set df. distinct (map str_lower (row_labels r))) \<longrightarrow>
               count st = int (spec_record_count df k)))"
proof -
  have "count st = int (length (filter (\<lambda>tp. str_lower tp = k) (labels df)))"
    if "(k, st) \<in> set (closed_form (occurrences df))" for k st
    using that by (simp add: closed_form_entry count_is_label_occurrences occurrences_labels)
  then show ?thesis
    by (auto simp: count_topics_closed_form occurrences_once_per_record)
qed

theorem count_is_occurrence_count_witness:
  "count_topics_from_csv [mk_row (Str ''repoA'') (Str ''Rust, CLI''), mk_row (Str ''repoB'') (Str ''rust'')]
     = Inr [(''rust'', \<lparr>topic = ''Rust'', count = 2, repos = [Str ''repoA'', Str ''repoB'']\<rparr>),
            (''cli'', \<lparr>topic = ''CLI'', count = 1, repos = [Str ''repoA'']\<rparr>)]
   \<and> (2::int) = int (length (filter (\<lambda>tp. str_lower tp = ''rust'')
          (labels [mk_row (Str ''repoA'') (Str ''Rust, CLI''), mk_row (Str ''repoB'') (Str ''rust'')])))
   \<and> (2::int) = int (spec_record_count
          [mk_row (Str ''repoA'') (Str ''Rust, CLI''), mk_row (Str ''repoB'') (Str ''rust'')] ''rust'')"
proof -
  let ?df = "[mk_row (Str ''repoA'') (Str ''Rust, CLI''), mk_row (Str ''repoB'') (Str ''rust'')]"
  let ?st = "\<lparr>topic = ''Rust'', count = 2, repos = [Str ''repoA'', Str ''repoB'']\<rparr>"
  let ?tm = "[(''rust'', ?st), (''cli'', \<lparr>topic = ''CLI'', count = 1, repos = [Str ''repoA'']\<rparr>)]"
  have e: "count_topics_from_csv ?df = Inr ?tm"
    by code_simp
  have d: "\<forall>r \<in> set ?df. distinct (map str_lower (row_labels r))"
    by code_simp
  from count_is_occurrence_count [of ?df] obtain tm where
    "count_topics_from_csv ?df = Inr tm"
    and p: "\<forall>(k, st) \<in> set tm.
            count st = int (length (filter (\<lambda>tp. str_lower tp = k) (labels ?df))) \<and>
            ((\<forall>r \<in> set ?df. distinct (map str_lower (row_labels r))) \<longrightarrow>
               count st = int (spec_record_count ?df k))"
    by blast
  with e have "tm = ?tm" by simp
  with p have "count ?st = int (length (filter (\<lambda>tp. str_lower tp = ''rust'') (labels ?df))) \<and>
            ((\<forall>r \<in> set ?df. distinct (map str_lower (row_labels r))) \<longrightarrow>
               count ?st = int (spec_record_count ?df ''rust''))"
    by simp
  with d have "count ?st = int (length (filter (\<lambda>tp. str_lower tp = ''rust'') (labels ?df))) \<and>
               count ?st = int (spec_record_count ?df ''rust'')"
    by blast
  with e show ?thesis by simp
qed

lemma find_first_hit: "filter P xs \<noteq> [] \<Longrightarrow> List.find P xs = Some (hd (filter P xs))"
  by (induction xs) auto

lemma topic_is_first_spelling:
  assumes "hits os k \<noteq> []"
  shows "List.find (\<lambda>tp. str_lower tp = k) (map snd os) = Some (topic (stat_of os k))"
proof -
  have ne: "filter (\<lambda>tp. str_lower tp = k) (map snd os) \<noteq> []"
    using assms by (simp add: hits_labels [symmetric])
  have "topic (stat_of os k) = hd (map snd (hits os k))"
    using assms by (simp add: stat_of_def hd_map)
  also have "\<dots> = hd (filter (\<lambda>tp. str_lower tp = k) (map snd os))"
    by (simp only: hits_labels)
  finally show ?thesis using find_first_hit [OF ne] by simp
qed

lemma hits_of_label: "tp \<in> set (map snd os) \<Longrightarrow> hits os (str_lower tp) \<noteq> []"
  by (auto simp: hits_Nil_iff)

subsection \<open>Merging of case variants\<close>

text \<open>
  C5. For every frame, aggregation returns a map with one entry for each lowercase form
  of a label and no other: labels that differ only in letter case share the entry under
  their common lowercase form, and the display label of that entry is the first label of
  the scan with that lowercase form.
\<close>
theorem case_variants_merge_under_first_spelling:
  "\<exists>tm. count_topics_from_csv df = Inr tm \<and>
        distinct (map fst tm) \<and>
        fst ` set tm = str_lower ` set (labels df) \<and>
        (\<forall>tp \<in> set (labels df). \<exists>st.
            map_of tm (str_lower tp) = Some st \<and>
            List.find (\<lambda>tp'. str_lower tp' = str_lower tp) (labels df) = Some (topic st))"
proof -
  let ?os = "occurrences df"
  have keys: "map fst (closed_form ?os) = firsts (map str_lower (labels df))"
    by (simp add: closed_form_keys occurrences_labels [symmetric] comp_def)
  have d: "distinct (map fst (closed_form ?os))"
    by (simp only: keys distinct_firsts)
  have s: "fst ` set (closed_form ?os) = str_lower ` set (labels df)"
    using arg_cong [OF keys, of set] by (simp add: set_firsts)
  have f: "\<exists>st. map_of (closed_form ?os) (str_lower tp) = Some st \<and>
            List.find (\<lambda>tp'. str_lower tp' = str_lower tp) (labels df) = Some (topic st)"
    if "tp \<in> set (labels df)" for tp
  proof -
    from that have h: "hits ?os (str_lower tp) \<noteq> []"
      by (simp add: hits_of_label occurrences_labels)
    then have "(str_lower tp, stat_of ?os (str_lower tp)) \<in> set (closed_form ?os)"
      by (simp add: closed_form_entry)
    with d have "map_of (closed_form ?os) (str_lower tp) = Some (stat_of ?os (str_lower tp))"
      by (rule map_of_is_SomeI)
    moreover from topic_is_first_spelling [OF h]
    have "List.find (\<lambda>tp'. str_lower tp' = str_lower tp) (labels df)
            = Some (topic (stat_of ?os (str_lower tp)))"
      by (simp only: occurrences_labels)
    ultimately show ?thesis by blast
  qed
  show ?thesis
    using d s f by (simp add: count_topics_closed_form)
qed

theorem case_variants_merge_under_first_spelling_witness:
  "count_topics_from_csv [mk_row (Str ''repoA'') (Str ''Rust, CLI''), mk_row (Str ''repoB'') (Str ''rust'')]
     = Inr [(''rust'', \<lparr>topic = ''Rust'', count = 2, repos = [Str ''repoA'', Str ''repoB'']\<rparr>),
            (''cli'', \<lparr>topic = ''CLI'', count = 1, repos = [Str ''repoA'']\<rparr>)]
   \<and> ''rust'' \<in> set (labels [mk_row (Str ''repoA'') (Str ''Rust, CLI''), mk_row (Str ''repoB'') (Str ''rust'')])
   \<and> List.find (\<lambda>tp'. str_lower tp' = str_lower ''rust'')
        (labels [mk_row (Str ''repoA'') (Str ''Rust, CLI''), mk_row (Str ''repoB'') (Str ''rust'')])
       = Some ''Rust''"
proof -
  let ?df = "[mk_row (Str ''repoA'') (Str ''Rust, CLI''), mk_row (Str ''repoB'') (Str ''rust'')]"
  let ?st = "\<lparr>topic = ''Rust'', count = 2, repos = [Str ''repoA'', Str ''repoB'']\<rparr>"
  let ?tm = "[(''rust'', ?st), (''cli'', \<lparr>topic = ''CLI'', count = 1, repos = [Str ''repoA'']\<rparr>)]"
  have e: "count_topics_from_csv ?df = Inr ?tm"
    by code_simp
  have m: "''rust'' \<in> set (labels ?df)"
    by code_simp
  have l: "str_lower ''rust'' = ''rust''"
    by code_simp
  from case_variants_merge_under_first_spelling [of ?df] obtain tm where
    "count_topics_from_csv ?df = Inr tm"
    and p: "\<forall>tp \<in> set (labels ?df). \<exists>st.
            map_of tm (str_lower tp) = Some st \<and>
            List.find (\<lambda>tp'. str_lower tp' = str_lower tp) (labels ?df) = Some (topic st)"
    by blast
  with e have t: "tm = ?tm" by simp
  from p m obtain st where
    "map_of tm (str_lower ''rust'') = Some st"
    and q: "List.find (\<lambda>tp'. str_lower tp' = str_lower ''rust'') (labels ?df) = Some (topic st)"
    by blast
  with t l have "st = ?st" by simp
  with q have "List.find (\<lambda>tp'. str_lower tp' = str_lower ''rust'') (labels ?df) = Some ''Rust''"
    by simp
  with e m show ?thesis by simp
qed

subsection \<open>The example of the specification\<close>

lemma row_of_mk_row: "row_repo (mk_row a b) = a" "row_topics (mk_row a b) = b"
  by (simp_all add: row_repo_def row_topics_def mk_row_def row_get_def)

lemma parse_go: "parse_topics (Str ''  Go ,Go,go '') = [''Go'', ''Go'', ''go'']"
  by code_simp

lemma lower_go: "str_lower ''Go'' = ''go''" "str_lower ''go'' = ''go''"
  by code_simp+

text \<open>
  What the record with the topics \<open>"  Go ,Go,go "\<close> gives, whatever its \<open>repo_name\<close>
  cell \<open>c\<close>: exactly one entry, under the key \<open>go\<close>, with the display label \<open>Go\<close> and
  the count 3. Its \<open>repos\<close> list holds \<open>c\<close> once when \<open>c\<close> is truthy and is empty
  otherwise.
\<close>

lemma go_general:
  "count_topics_from_csv [mk_row c (Str ''  Go ,Go,go '')]
     = Inr [(''go'', \<lparr>topic = ''Go'', count = 3, repos = (if truthy c then [c] else [])\<rparr>)]"
proof -
  have "occurrences [mk_row c (Str ''  Go ,Go,go '')] = [(c, ''Go''), (c, ''Go''), (c, ''go'')]"
    by (simp add: occurrences_def row_labels_def skipped_def row_of_mk_row parse_go)
  then show ?thesis
    by (cases "truthy c") (simp_all add: count_topics_eq add_label_def bump_def lower_go)
qed

text \<open>
  C2 at its failing input. A \<open>repo_name\<close> column of numbers gives integer cells, and the
  identifier 0 is not empty but falsy: line 74 tests the truth value of \<open>repo_name\<close>, so
  the record (0, \<open>"  Go ,Go,go "\<close>) gives the one entry with count 3 and label \<open>Go\<close>, and a
  \<open>repos\<close> list of length 0 where the claim has length 1.
\<close>

theorem repo_name_zero_is_dropped:
  "count_topics_from_csv [mk_row (Num 0) (Str ''  Go ,Go,go '')]
     = Inr [(''go'', \<lparr>topic = ''Go'', count = 3, repos = []\<rparr>)]"
  by code_simp

subsection \<open>Records that are skipped\<close>

lemma skipped_iff:
  "skipped r \<longleftrightarrow>
     r ''topics'' = None \<or> (\<exists>i. r ''topics'' = Some (NaN i)) \<or> r ''topics'' = Some (Str '''')"
proof (cases "r ''topics''")
  case None
  then show ?thesis by (simp add: skipped_def row_topics_def row_get_def)
next
  case (Some c)
  then show ?thesis by (cases c) (simp_all add: skipped_def row_topics_def row_get_def)
qed

lemma occurrences_skip: "skipped r \<Longrightarrow> occurrences (pre @ r # post) = occurrences (pre @ post)"
  by (simp add: occurrences_def row_labels_def)

text \<open>
  C3, as stated, fails for a topics value that is not a string: a column of numbers
  gives integer cells, line 59 lets them pass, and line 63 turns them into text with
  \<open>str\<close>. The record with the topics value 2024 adds the label \<open>2024\<close>, where the
  empty frame gives the empty map.
\<close>
theorem number_in_topics_is_counted:
  "row_get (mk_row (Str ''a/b'') (Num 2024)) ''topics'' (Str '''') = Num 2024
   \<and> count_topics_from_csv [mk_row (Str ''a/b'') (Num 2024)]
     = Inr [(''2024'', \<lparr>topic = ''2024'', count = 1, repos = [Str ''a/b'']\<rparr>)]
   \<and> count_topics_from_csv [] = Inr []"
  by code_simp

text \<open>
  C3, amended. A record whose topics field is missing (no such column, or NaN) or the
  empty string contributes nothing: the frame with the record gives what the frame
  without it gives, and aggregation raises no error.
\<close>
theorem skipped_record_contributes_nothing:
  "r ''topics'' = None \<or> (\<exists>i. r ''topics'' = Some (NaN i)) \<or> r ''topics'' = Some (Str '''') \<Longrightarrow>
   count_topics_from_csv (pre @ r # post) = count_topics_from_csv (pre @ post) \<and>
   (\<exists>tm. count_topics_from_csv (pre @ r # post) = Inr tm)"
  by (simp add: skipped_iff [symmetric] count_topics_closed_form occurrences_skip)

theorem skipped_record_contributes_nothing_witness:
  "mk_row (Str ''repoC'') (Str '''') ''topics'' = Some (Str '''') \<and>
   count_topics_from_csv ([mk_row (Str ''repoA'') (Str ''Rust'')] @ mk_row (Str ''repoC'') (Str '''') # [])
     = count_topics_from_csv ([mk_row (Str ''repoA'') (Str ''Rust'')] @ [])"
proof -
  have h: "mk_row (Str ''repoC'') (Str '''') ''topics'' = Some (Str '''')"
    by (simp add: mk_row_def)
  from skipped_record_contributes_nothing
         [of "mk_row (Str ''repoC'') (Str '''')" "[mk_row (Str ''repoA'') (Str ''Rust'')]" "[]"] h
  show ?thesis by blast
qed

subsection \<open>Determinism\<close>

lemma occurrences_records:
  "occurrences df =
     concat (map (\<lambda>(rn, ts). map (Pair rn) (if isna ts \<or> ts = Str '''' then [] else parse_topics ts))
               (map record_of df))"
  by (simp add: occurrences_def record_of_def row_labels_def skipped_def row_repo_def
      row_topics_def comp_def cong: if_cong)

text \<open>
  C8. Aggregation is a function of the record sequence alone: two frames with the same
  sequence of records (whatever else their rows hold) give the same map, keys, display
  labels, counts and repository lists in the same order, and no error.
\<close>
theorem aggregation_depends_on_records_only:
  "map record_of df1 = map record_of df2 \<Longrightarrow>
   count_topics_from_csv df1 = count_topics_from_csv df2 \<and>
   (\<exists>tm. count_topics_from_csv df1 = Inr tm)"
  by (simp add: count_topics_closed_form occurrences_records)

theorem aggregation_depends_on_records_only_witness:
  "map record_of [mk_row (Str ''a/b'') (Str ''Go, CLI'')]
     = map record_of [(mk_row (Str ''a/b'') (Str ''Go, CLI''))(''stars'' \<mapsto> Num 5)] \<and>
   count_topics_from_csv [mk_row (Str ''a/b'') (Str ''Go, CLI'')]
     = count_topics_from_csv [(mk_row (Str ''a/b'') (Str ''Go, CLI''))(''stars'' \<mapsto> Num 5)]"
proof -
  have h: "map record_of [mk_row (Str ''a/b'') (Str ''Go, CLI'')]
     = map record_of [(mk_row (Str ''a/b'') (Str ''Go, CLI''))(''stars'' \<mapsto> Num 5)]"
    by (simp add: record_of_def mk_row_def row_get_def)
  from aggregation_depends_on_records_only [OF h] h show ?thesis by blast
qed

subsection \<open>The ranking\<close>

lemma length_sort_reverse: "length (sort_reverse key xs) = length xs"
  by (simp add: sort_reverse_def)

lemma sort_reverse_descending:
  "sorted_wrt (\<lambda>a b. key a \<ge> key b) (sort_reverse key xs)"
proof -
  have "sorted (map key (sort_key key (rev xs)))"
    by (rule sorted_sort_key)
  then have "sorted_wrt (\<lambda>a b. key a \<le> key b) (sort_key key (rev xs))"
    by (simp add: sorted_wrt_map)
  then show ?thesis
    by (simp add: sort_reverse_def sorted_wrt_rev)
qed

lemma sort_reverse_stable:
  "filter (\<lambda>x. key x = c) (sort_reverse key xs) = filter (\<lambda>x. key x = c) xs"
proof -
  have "filter (\<lambda>x. key x = c) (sort_reverse key xs)
          = rev (filter (\<lambda>x. key x = c) (sort_key key (rev xs)))"
    by (simp add: sort_reverse_def rev_filter)
  also have "\<dots> = rev (filter (\<lambda>x. key x = c) (rev xs))"
    by (simp only: sort_key_stable)
  also have "\<dots> = filter (\<lambda>x. key x = c) xs"
    by (simp add: rev_filter)
  finally show ?thesis .
qed

lemma slice_to_nonneg: "0 \<le> n \<Longrightarrow> slice_to xs n = take (nat n) xs"
  by (simp add: slice_to_def)

lemma entry_count: "e_count (entry_of st) = count st"
  by (simp add: entry_of_def)

text \<open>
  C4. For every map with distinct keys and every \<open>top_n\<close> that is not negative (the
  program passes 15), the ranking has as many entries as the smaller of \<open>top_n\<close> and the
  number of distinct labels, and it is the front of the sorted sequence of all entries:
  there are entries \<open>rest\<close> such that the ranking followed by \<open>rest\<close> has descending
  counts, so no entry left out has a higher count than an entry kept, and holds, for every
  count, exactly the map's entries with that count in their insertion order.
\<close>

theorem ranking_is_top_n_sorted_stable:
  assumes "0 \<le> top_n" and "distinct (map fst tm)"
  shows "\<exists>rest.
           length (generate_wordcloud_data tm top_n) = min (nat top_n) (card (fst ` set tm)) \<and>
           sorted_wrt (\<lambda>a b. e_count a \<ge> e_count b) (generate_wordcloud_data tm top_n @ rest) \<and>
           (\<forall>c. filter (\<lambda>e. e_count e = c) (generate_wordcloud_data tm top_n @ rest)
                 = filter (\<lambda>e. e_count e = c) (map entry_of (map snd tm)))"
proof -
  let ?sorted = "sort_reverse count (map snd tm)"
  let ?rest = "map entry_of (drop (nat top_n) ?sorted)"
  have g: "generate_wordcloud_data tm top_n = map entry_of (take (nat top_n) ?sorted)"
    using assms(1) by (simp add: generate_wordcloud_data_def slice_to_nonneg)
  have full: "generate_wordcloud_data tm top_n @ ?rest = map entry_of ?sorted"
    by (simp add: g map_append [symmetric] del: map_append)
  have "card (fst ` set tm) = length tm"
    using distinct_card [OF assms(2)] by simp
  then have len: "length (generate_wordcloud_data tm top_n) = min (nat top_n) (card (fst ` set tm))"
    by (simp add: g length_sort_reverse min.commute)
  have "sorted_wrt (\<lambda>a b. count a \<ge> count b) ?sorted"
    by (rule sort_reverse_descending)
  then have srt: "sorted_wrt (\<lambda>a b. e_count a \<ge> e_count b) (generate_wordcloud_data tm top_n @ ?rest)"
    by (simp only: full) (simp add: sorted_wrt_map entry_count)
  have stab: "filter (\<lambda>e. e_count e = c) (generate_wordcloud_data tm top_n @ ?rest)
                = filter (\<lambda>e. e_count e = c) (map entry_of (map snd tm))" for c
    by (simp only: full) (simp add: filter_map comp_def entry_count sort_reverse_stable)
  from len srt stab show ?thesis by blast
qed

theorem ranking_is_top_n_sorted_stable_witness:
  "(0::int) \<le> 2 \<and>
   distinct (map fst [(''cli'', \<lparr>topic = ''CLI'', count = 1, repos = []\<rparr>),
                      (''rust'', \<lparr>topic = ''Rust'', count = 2, repos = []\<rparr>),
                      (''go'', \<lparr>topic = ''Go'', count = 1, repos = []\<rparr>)]) \<and>
   generate_wordcloud_data
             [(''cli'', \<lparr>topic = ''CLI'', count = 1, repos = []\<rparr>),
              (''rust'', \<lparr>topic = ''Rust'', count = 2, repos = []\<rparr>),
              (''go'', \<lparr>topic = ''Go'', count = 1, repos = []\<rparr>)] 2
     = [\<lparr>e_name = ''Rust'', e_value = 2, e_count = 2, e_repos = []\<rparr>,
        \<lparr>e_name = ''CLI'', e_value = 1, e_count = 1, e_repos = []\<rparr>] \<and>
   length (generate_wordcloud_data
             [(''cli'', \<lparr>topic = ''CLI'', count = 1, repos = []\<rparr>),
              (''rust'', \<lparr>topic = ''Rust'', count = 2, repos = []\<rparr>),
              (''go'', \<lparr>topic = ''Go'', count = 1, repos = []\<rparr>)] 2)
     = min (nat 2) (card (fst ` set
             [(''cli'', \<lparr>topic = ''CLI'', count = 1, repos = []\<rparr>),
              (''rust'', \<lparr>topic = ''Rust'', count = 2, repos = []\<rparr>),
              (''go'', \<lparr>topic = ''Go'', count = 1, repos = []\<rparr>)]))"
proof -
  let ?tm = "[(''cli'', \<lparr>topic = ''CLI'', count = 1, repos = []\<rparr>),
              (''rust'', \<lparr>topic = ''Rust'', count = 2, repos = []\<rparr>),
              (''go'', \<lparr>topic = ''Go'', count = 1, repos = []\<rparr>)]"
  have h1: "(0::int) \<le> 2" by simp
  have h2: "distinct (map fst ?tm)" by simp
  have e: "generate_wordcloud_data ?tm 2
     = [\<lparr>e_name = ''Rust'', e_value = 2, e_count = 2, e_repos = []\<rparr>,
        \<lparr>e_name = ''CLI'', e_value = 1, e_count = 1, e_repos = []\<rparr>]"
    by code_simp
  from ranking_is_top_n_sorted_stable [OF h1 h2]
  have "length (generate_wordcloud_data ?tm 2) = min (nat 2) (card (fst ` set ?tm))"
    by blast
  with h1 h2 e show ?thesis by blast
qed

subsection \<open>The repository lists\<close>

text \<open>
  What holds of every \<open>repos\<close> list: no cell twice, every cell truthy (so never the
  empty string), and exactly the truthy cells of the records that contributed the label.
\<close>

lemma repos_distinct_truthy:
  assumes "count_topics_from_csv df = Inr tm" and "(k, st) \<in> set tm"
  shows "distinct (repos st) \<and> (\<forall>c \<in> set (repos st). truthy c) \<and>
         set (repos st) = {c \<in> fst ` set (hits (occurrences df) k). truthy c}"
proof -
  from assms(1) have "tm = closed_form (occurrences df)"
    by (simp add: count_topics_closed_form)
  with assms(2) have "st = stat_of (occurrences df) k"
    by (simp add: closed_form_entry)
  then show ?thesis
    by (auto simp: stat_of_def distinct_firsts set_firsts)
qed

text \<open>
  C6 at its failing input. An empty \<open>repo_name\<close> field reaches the loop as NaN, which is
  truthy: line 74 lets it through and line 75 appends it. The frame with the one record
  (NaN, \<open>"go"\<close>) gives the label \<open>go\<close> a \<open>repos\<close> list that holds the missing identifier.
\<close>
theorem missing_repo_name_is_recorded:
  "count_topics_from_csv [mk_row (NaN 0) (Str ''go'')]
     = Inr [(''go'', \<lparr>topic = ''go'', count = 1, repos = [NaN 0]\<rparr>)]"
  by code_simp

subsection \<open>main\<close>

text \<open>Without the input file, \<open>main\<close> prints the two messages and changes no file.\<close>

lemma main_missing_input:
  "input_csv w = None \<Longrightarrow> main w = (print MsgMissingInput (print MsgStart w), None)"
  by (simp add: main_def print_def)

lemma main_missing_input_writes_nothing:
  assumes "input_csv w = None"
  shows "json_file (fst (main w)) = json_file w \<and> csv_file (fst (main w)) = csv_file w \<and>
         excel_file (fst (main w)) = excel_file w \<and>
         console (fst (main w)) = console w @ [MsgStart, MsgMissingInput] \<and>
         snd (main w) = None"
  using assms by (simp add: main_missing_input print_def)

text \<open>
  C7 at its failing input. With the input file present and holding the one record
  (NaN, \<open>"go"\<close>), \<open>main\<close> writes the JSON and the CSV file, and \<open>save_excel\<close> then raises
  TypeError at \<open>', '.join\<close> over a list that holds NaN: two of the three files are
  written.
\<close>
theorem missing_repo_name_leaves_two_of_three_files:
  "snd (main (fresh_world (Some [mk_row (NaN 0) (Str ''go'')]) ''t'')) = Some TypeError \<and>
   json_file (fst (main (fresh_world (Some [mk_row (NaN 0) (Str ''go'')]) ''t''))) \<noteq> None \<and>
   csv_file (fst (main (fresh_world (Some [mk_row (NaN 0) (Str ''go'')]) ''t''))) \<noteq> None \<and>
   excel_file (fst (main (fresh_world (Some [mk_row (NaN 0) (Str ''go'')]) ''t''))) = None"
  by code_simp

end
